theory Spec2Isabelle
  imports Complex_Main
begin

section \<open>Shared data model (frontend/src/types/index.ts)\<close>

text \<open>
  The TypeScript interfaces become records and the string enums become datatypes.
  Several interfaces use the same field name (\<open>template_id\<close>, \<open>objective\<close>,
  \<open>constraints\<close>, ...); a record field is a global constant here, so every field
  carries a short prefix naming its interface. A field declared with \<open>?\<close> is an
  \<open>option\<close>. \<open>number\<close> is \<open>real\<close> for scores and \<open>int\<close> for counters and
  page numbers (mathematical numbers: rounding of doubles is not modelled).
  A JavaScript string is a \<open>string\<close>; the source's Chinese literals are written as
  their UTF-8 bytes.
\<close>

datatype OptimizationLevel = LOW | MEDIUM | HIGH

datatype TaskType =
  GENERATION | ANALYSIS | CONVERSATION | EXTRACTION | TRANSFORMATION | REASONING | OTHER

text \<open>A value of type \<open>any\<close>: whatever JSON carries.\<close>

datatype json =
  JNull
| JBool bool
| JNumber real
| JString string
| JArray "json list"
| JObject "(string \<times> json) list"

record IntentResult =
  in_task_type :: TaskType
  in_domain :: string
  in_objective :: string
  in_constraints :: "string list"
  in_keywords :: "string list"
  in_context :: "(string \<times> json) list"
  in_confidence :: real

record PromptTemplate =
  tp_template_id :: string
  tp_name :: string
  tp_description :: "string option"
  tp_role :: string
  tp_objective :: string
  tp_constraints :: "string list"
  tp_output_format :: string
  tp_context_vars :: "(string \<times> string) list"
  tp_task_types :: "TaskType list"
  tp_domains :: "string list"
  tp_tags :: "string list"
  tp_created_at :: string
  tp_updated_at :: string
  tp_usage_count :: int
  tp_avg_quality_score :: real

record CompiledPrompt =
  cp_version_id :: string
  cp_original_input :: string
  cp_intent :: IntentResult
  cp_template_id :: "string option"
  cp_role :: string
  cp_objective :: string
  cp_constraints :: "string list"
  cp_output_format :: string
  cp_context :: "(string \<times> json) list"
  cp_full_prompt :: string
  cp_optimization_level :: OptimizationLevel
  cp_optimized :: bool
  cp_created_at :: string

record QualityMetrics =
  structure_score :: real
  consistency_score :: real
  completeness_score :: real
  clarity_score :: real
  overall_score :: real

text \<open>The request and response interfaces of the compile call, as declared.\<close>

record CompileRequest =
  user_input :: string
  template_id :: "string option"
  optimization_level :: OptimizationLevel
  auto_evaluate :: bool

record CompileResponse =
  success :: bool
  compiled_prompt :: CompiledPrompt
  metrics :: "QualityMetrics option"
  suggestions :: "string list"
  formatted_output :: json

text \<open>
  What the awaited call yields at run time. The store's \<open>compile\<close> does not trust the
  declared type: it tests \<open>response && response.compiled_prompt\<close> and reads
  \<open>response.metrics || null\<close>, \<open>response.suggestions || []\<close>. So the body may be falsy
  altogether (\<open>None\<close> below) and each of these three members may be missing.
\<close>

record ResponseData =
  rd_success :: "bool option"
  rd_compiled_prompt :: "CompiledPrompt option"
  rd_metrics :: "QualityMetrics option"
  rd_suggestions :: "string list option"
  rd_formatted_output :: "json option"

text \<open>A well-typed response seen as run-time data: every declared member present.\<close>

definition response_data :: "CompileResponse \<Rightarrow> ResponseData" where
  "response_data r =
     \<lparr>rd_success = Some (success r),
      rd_compiled_prompt = Some (compiled_prompt r),
      rd_metrics = metrics r,
      rd_suggestions = Some (suggestions r),
      rd_formatted_output = Some (formatted_output r)\<rparr>"

section \<open>The API client (frontend/src/services/api.ts)\<close>

text \<open>
  \<open>axios.create\<close> fixes the instance defaults; every request made through the
  instance inherits them. The response interceptor's error handler turns whatever
  axios rejects with into a plain object \<open>{status, message, data?}\<close>.
\<close>

record AxiosConfig =
  baseURL :: string
  timeout_ms :: nat
  content_type :: string

definition apiClient :: AxiosConfig where
  "apiClient = \<lparr>baseURL = ''/api'', timeout_ms = 120000, content_type = ''application/json''\<rparr>"

text \<open>
  The part of an axios error the handler reads: \<open>error.code\<close>, \<open>error.message\<close>,
  \<open>error.response\<close> (with its \<open>status\<close> and the \<open>detail\<close> and \<open>error_message\<close>
  members of its \<open>data\<close>, taken to be text when present) and whether \<open>error.request\<close>
  is set.
\<close>

record ErrorResponse =
  er_status :: int
  er_detail :: "string option"
  er_error_message :: "string option"
  er_data :: json

record AxiosError =
  ae_code :: "string option"
  ae_message :: "string option"
  ae_response :: "ErrorResponse option"
  ae_request :: bool

record ApiRejection =
  rj_status :: int
  rj_message :: string
  rj_data :: "json option"

text \<open>\<open>String.prototype.includes\<close>: the needle occurs somewhere in the text.\<close>

fun includes_str :: "string \<Rightarrow> string \<Rightarrow> bool" where
  "includes_str [] needle = (needle = [])"
| "includes_str (c # cs) needle =
     (take (length needle) (c # cs) = needle \<or> includes_str cs needle)"

text \<open>\<open>a || b\<close> on optional text: the empty string is falsy, like a missing member.\<close>

definition or_else :: "string option \<Rightarrow> string \<Rightarrow> string" where
  "or_else m d = (case m of None \<Rightarrow> d | Some t \<Rightarrow> if t = [] then d else t)"

definition msg_timeout :: string where
  "msg_timeout =
     [CHR 0xE8, CHR 0xAF, CHR 0xB7, CHR 0xE6, CHR 0xB1, CHR 0x82, CHR 0xE8, CHR 0xB6,
      CHR 0x85, CHR 0xE6, CHR 0x97, CHR 0xB6, CHR 0xEF, CHR 0xBC, CHR 0x8C, CHR 0xE8,
      CHR 0xAF, CHR 0xB7, CHR 0xE7, CHR 0xA8, CHR 0x8D, CHR 0xE5, CHR 0x90, CHR 0x8E,
      CHR 0xE9, CHR 0x87, CHR 0x8D, CHR 0xE8, CHR 0xAF, CHR 0x95]"

definition msg_request_failed :: string where
  "msg_request_failed =
     [CHR 0xE8, CHR 0xAF, CHR 0xB7, CHR 0xE6, CHR 0xB1, CHR 0x82, CHR 0xE5, CHR 0xA4,
      CHR 0xB1, CHR 0xE8, CHR 0xB4, CHR 0xA5]"

definition msg_network :: string where
  "msg_network =
     [CHR 0xE7, CHR 0xBD, CHR 0x91, CHR 0xE7, CHR 0xBB, CHR 0x9C, CHR 0xE9, CHR 0x94,
      CHR 0x99, CHR 0xE8, CHR 0xAF, CHR 0xAF, CHR 0xEF, CHR 0xBC, CHR 0x8C, CHR 0xE8,
      CHR 0xAF, CHR 0xB7, CHR 0xE6, CHR 0xA3, CHR 0x80, CHR 0xE6, CHR 0x9F, CHR 0xA5,
      CHR 0xE6, CHR 0x82, CHR 0xA8, CHR 0xE7, CHR 0x9A, CHR 0x84, CHR 0xE7, CHR 0xBD,
      CHR 0x91, CHR 0xE7, CHR 0xBB, CHR 0x9C, CHR 0xE8, CHR 0xBF, CHR 0x9E, CHR 0xE6,
      CHR 0x8E, CHR 0xA5]"

definition msg_unknown :: string where
  "msg_unknown =
     [CHR 0xE6, CHR 0x9C, CHR 0xAA, CHR 0xE7, CHR 0x9F, CHR 0xA5, CHR 0xE9, CHR 0x94,
      CHR 0x99, CHR 0xE8, CHR 0xAF, CHR 0xAF]"

text \<open>The guard of the handler's first branch.\<close>

definition is_timeout :: "AxiosError \<Rightarrow> bool" where
  "is_timeout e =
     (ae_code e = Some ''ECONNABORTED'' \<or>
      (case ae_message e of None \<Rightarrow> False | Some m \<Rightarrow> includes_str m ''timeout''))"

text \<open>The error handler of \<open>apiClient.interceptors.response\<close>: the value it rejects with.\<close>

definition response_error :: "AxiosError \<Rightarrow> ApiRejection" where
  "response_error e =
     (if is_timeout e then
        \<lparr>rj_status = 0, rj_message = msg_timeout, rj_data = None\<rparr>
      else case ae_response e of
        Some r \<Rightarrow>
          \<lparr>rj_status = er_status r,
           rj_message =
             or_else (er_detail r) (or_else (er_error_message r) msg_request_failed),
           rj_data = Some (er_data r)\<rparr>
      | None \<Rightarrow>
          if ae_request e then
            \<lparr>rj_status = 0, rj_message = msg_network, rj_data = None\<rparr>
          else
            \<lparr>rj_status = - 1, rj_message = or_else (ae_message e) msg_unknown,
             rj_data = None\<rparr>)"

section \<open>The prompt store (stores/promptStore.ts)\<close>

datatype CompileProgress =
  IDLE | STARTING | EXTRACTING_INTENT | GENERATING_PROMPT | OPTIMIZING | SELF_CHECKING
| EVALUATING | COMPLETED | ERROR

text \<open>
  What a \<open>catch (err: any)\<close> can receive: the object the API client rejects with, an
  \<open>Error\<close> made by \<open>new Error(message)\<close>, a bare string, or anything else.
\<close>

datatype thrown =
  Rejection ApiRejection
| ErrorObject string
| ThrownString string
| ThrownOther

text \<open>How an awaited promise settles.\<close>

datatype 'a settled = Resolved 'a | Rejected thrown

record PromptStore =
  ps_loading :: bool
  ps_progress :: CompileProgress
  ps_error :: "string option"
  ps_currentPrompt :: "CompiledPrompt option"
  ps_currentMetrics :: "QualityMetrics option"
  ps_suggestions :: "string list"

definition msg_compile_failed :: string where
  "msg_compile_failed =
     [CHR 0xE7, CHR 0xBC, CHR 0x96, CHR 0xE8, CHR 0xAF, CHR 0x91, CHR 0xE5, CHR 0xA4,
      CHR 0xB1, CHR 0xE8, CHR 0xB4, CHR 0xA5]"

definition msg_bad_format :: string where
  "msg_bad_format =
     [CHR 0xE5, CHR 0x93, CHR 0x8D, CHR 0xE5, CHR 0xBA, CHR 0x94, CHR 0xE6, CHR 0xA0,
      CHR 0xBC, CHR 0xE5, CHR 0xBC, CHR 0x8F, CHR 0xE4, CHR 0xB8, CHR 0x8D, CHR 0xE6,
      CHR 0xAD, CHR 0xA3, CHR 0xE7, CHR 0xA1, CHR 0xAE]"

text \<open>The three synchronous assignments that open \<open>compile\<close>.\<close>

definition compile_start :: "PromptStore \<Rightarrow> PromptStore" where
  "compile_start s = s\<lparr>ps_loading := True, ps_error := None, ps_progress := STARTING\<rparr>"

text \<open>The callback of \<open>setInterval\<close>: one simulated step of progress.\<close>

definition progress_tick :: "CompileRequest \<Rightarrow> CompileProgress \<Rightarrow> CompileProgress" where
  "progress_tick request p =
     (if p = STARTING then EXTRACTING_INTENT
      else if p = EXTRACTING_INTENT then GENERATING_PROMPT
      else if p = GENERATING_PROMPT then
        (if optimization_level request \<noteq> LOW then OPTIMIZING else SELF_CHECKING)
      else if p = OPTIMIZING then SELF_CHECKING
      else if p = SELF_CHECKING \<and> auto_evaluate request then EVALUATING
      else p)"

definition tick :: "CompileRequest \<Rightarrow> PromptStore \<Rightarrow> PromptStore" where
  "tick request s = s\<lparr>ps_progress := progress_tick request (ps_progress s)\<rparr>"

text \<open>The message the \<open>catch\<close> block stores.\<close>

definition error_message :: "thrown \<Rightarrow> string" where
  "error_message err =
     (case err of
        Rejection r \<Rightarrow> if rj_message r \<noteq> [] then rj_message r else msg_compile_failed
      | ErrorObject m \<Rightarrow> if m \<noteq> [] then m else msg_compile_failed
      | ThrownString t \<Rightarrow> t
      | ThrownOther \<Rightarrow> msg_compile_failed)"

definition compile_catch :: "thrown \<Rightarrow> PromptStore \<Rightarrow> ResponseData option \<times> PromptStore" where
  "compile_catch err s =
     (None, s\<lparr>ps_progress := ERROR, ps_error := Some (error_message err)\<rparr>)"

text \<open>
  A response passes the guard \<open>response && response.compiled_prompt\<close> when it is
  truthy and carries a compiled prompt.
\<close>

definition well_formed :: "ResponseData option settled \<Rightarrow> bool" where
  "well_formed out =
     (case out of
        Resolved (Some r) \<Rightarrow> rd_compiled_prompt r \<noteq> None
      | Resolved None \<Rightarrow> False
      | Rejected err \<Rightarrow> False)"

text \<open>The body of \<open>try\<close> after the \<open>await\<close>, with its \<open>catch\<close>.\<close>

definition compile_settle ::
  "ResponseData option settled \<Rightarrow> PromptStore \<Rightarrow> ResponseData option \<times> PromptStore" where
  "compile_settle out s =
     (case out of
        Rejected err \<Rightarrow> compile_catch err s
      | Resolved None \<Rightarrow> compile_catch (ErrorObject msg_bad_format) s
      | Resolved (Some r) \<Rightarrow>
          (case rd_compiled_prompt r of
             None \<Rightarrow> compile_catch (ErrorObject msg_bad_format) s
           | Some cp \<Rightarrow>
               (Some r,
                s\<lparr>ps_currentPrompt := Some cp,
                  ps_currentMetrics := rd_metrics r,
                  ps_suggestions := (case rd_suggestions r of None \<Rightarrow> [] | Some xs \<Rightarrow> xs),
                  ps_progress := COMPLETED\<rparr>)))"

text \<open>
  The callback \<open>finally\<close> schedules with \<open>setTimeout\<close>, to run two seconds after the
  call has returned. Nothing cancels it.
\<close>

definition reset_progress :: "PromptStore \<Rightarrow> PromptStore" where
  "reset_progress s = (if ps_progress s \<noteq> ERROR then s\<lparr>ps_progress := IDLE\<rparr> else s)"

text \<open>
  While a request is pending, two kinds of timer callback run on the store: the
  interval callback of the call itself, every three seconds, and the reset callback
  of an earlier call on the same store, still due when the new call starts within
  two seconds of the earlier one's return (the button is enabled again as soon as
  \<open>loading\<close> is false).
\<close>

datatype timer_event = Tick | EarlierReset

definition fire :: "CompileRequest \<Rightarrow> timer_event \<Rightarrow> PromptStore \<Rightarrow> PromptStore" where
  "fire request ev s = (case ev of Tick \<Rightarrow> tick request s | EarlierReset \<Rightarrow> reset_progress s)"

text \<open>
  The store while the request is pending: as the opening assignments leave it, then
  after each callback that fires, in the order they fire.
\<close>

fun pending_states :: "CompileRequest \<Rightarrow> timer_event list \<Rightarrow> PromptStore \<Rightarrow> PromptStore list" where
  "pending_states request [] s = [s]"
| "pending_states request (ev # evs) s = s # pending_states request evs (fire request ev s)"

text \<open>
  One call of \<open>compile\<close>, up to the value it returns: the opening assignments, the
  timer callbacks that fire while the request is pending, the settlement, and
  \<open>loading.value = false\<close> of \<open>finally\<close>.
\<close>

definition compile ::
  "CompileRequest \<Rightarrow> timer_event list \<Rightarrow> ResponseData option settled \<Rightarrow> PromptStore
     \<Rightarrow> ResponseData option \<times> PromptStore" where
  "compile request events out s =
     (case compile_settle out (last (pending_states request events (compile_start s))) of
        (result, s') \<Rightarrow> (result, s'\<lparr>ps_loading := False\<rparr>))"

text \<open>
  The values \<open>progress\<close> takes during one call, in order: after the opening
  assignments, after each timer callback, and after the settlement.
\<close>

definition progress_trace ::
  "CompileRequest \<Rightarrow> timer_event list \<Rightarrow> ResponseData option settled \<Rightarrow> PromptStore
     \<Rightarrow> CompileProgress list" where
  "progress_trace request events out s =
     map ps_progress (pending_states request events (compile_start s))
       @ [ps_progress (snd (compile request events out s))]"

text \<open>The position of a state in the declaration of \<open>CompileProgress\<close>.\<close>

fun rank :: "CompileProgress \<Rightarrow> nat" where
  "rank IDLE = 0"
| "rank STARTING = 1"
| "rank EXTRACTING_INTENT = 2"
| "rank GENERATING_PROMPT = 3"
| "rank OPTIMIZING = 4"
| "rank SELF_CHECKING = 5"
| "rank EVALUATING = 6"
| "rank COMPLETED = 7"
| "rank ERROR = 8"

section \<open>The service layer (services/promptService.ts, templateService.ts, historyService.ts)\<close>

text \<open>
  Every service function is one call on \<open>apiClient\<close>. A request made through an axios
  instance takes the instance's defaults; no service function passes a timeout of its
  own, so the call's timeout is the instance's.
\<close>

datatype http_method = GET | POST | PUT | DELETE

record OutboundCall =
  oc_method :: http_method
  oc_url :: string
  oc_timeout_ms :: nat

definition request_via :: "AxiosConfig \<Rightarrow> http_method \<Rightarrow> string \<Rightarrow> OutboundCall" where
  "request_via cfg m path =
     \<lparr>oc_method = m, oc_url = baseURL cfg @ path, oc_timeout_ms = timeout_ms cfg\<rparr>"

datatype service_call =
  PromptCompile CompileRequest
| PromptOptimize
| PromptEvaluate
| TemplateCreate
| TemplateList
| TemplateGet string
| TemplateUpdate string
| TemplateDelete string
| HistoryList
| HistoryGet string
| HistorySearch string
| HistoryStatistics

fun outbound :: "service_call \<Rightarrow> OutboundCall" where
  "outbound (PromptCompile request) = request_via apiClient POST ''/compile''"
| "outbound PromptOptimize = request_via apiClient POST ''/optimize''"
| "outbound PromptEvaluate = request_via apiClient POST ''/evaluate''"
| "outbound TemplateCreate = request_via apiClient POST ''/templates/''"
| "outbound TemplateList = request_via apiClient GET ''/templates/''"
| "outbound (TemplateGet templateId) = request_via apiClient GET (''/templates/'' @ templateId)"
| "outbound (TemplateUpdate templateId) = request_via apiClient PUT (''/templates/'' @ templateId)"
| "outbound (TemplateDelete templateId) =
     request_via apiClient DELETE (''/templates/'' @ templateId)"
| "outbound HistoryList = request_via apiClient GET ''/history/''"
| "outbound (HistoryGet versionId) = request_via apiClient GET (''/history/'' @ versionId)"
| "outbound (HistorySearch query) = request_via apiClient GET ''/history/search/''"
| "outbound HistoryStatistics = request_via apiClient GET ''/history/stats/summary''"

section \<open>The history store (stores/historyStore.ts)\<close>

record HistoryListResponse =
  hl_success :: bool
  hl_records :: "CompiledPrompt list"
  hl_total :: int
  hl_page :: int
  hl_page_size :: int

record HistoryStore =
  hs_loading :: bool
  hs_error :: "string option"
  hs_records :: "CompiledPrompt list"
  hs_total :: int
  hs_currentPage :: int
  hs_pageSize :: int

definition history_init :: HistoryStore where
  "history_init =
     \<lparr>hs_loading = False, hs_error = None, hs_records = [], hs_total = 0,
      hs_currentPage = 1, hs_pageSize = 20\<rparr>"

text \<open>
  \<open>Math.ceil(total / pageSize)\<close> is a JavaScript number: dividing by zero gives an
  infinity or \<open>NaN\<close>, not an error.
\<close>

datatype number = Finite int | PosInfinity | NegInfinity | NaN

definition totalPages :: "HistoryStore \<Rightarrow> number" where
  "totalPages s =
     (if hs_pageSize s = 0 then
        (if 0 < hs_total s then PosInfinity else if hs_total s < 0 then NegInfinity else NaN)
      else Finite \<lceil>real_of_int (hs_total s) / real_of_int (hs_pageSize s)\<rceil>)"

text \<open>\<open>page < totalPages\<close>: false against \<open>NaN\<close>.\<close>

fun less_number :: "int \<Rightarrow> number \<Rightarrow> bool" where
  "less_number c (Finite t) = (c < t)"
| "less_number c PosInfinity = True"
| "less_number c NegInfinity = False"
| "less_number c NaN = False"

text \<open>
  \<open>err.message\<close> of a caught value (a string has no such member; any other value is
  taken to be neither \<open>null\<close> nor \<open>undefined\<close>, which the API client never rejects
  with).
\<close>

definition thrown_message :: "thrown \<Rightarrow> string option" where
  "thrown_message err =
     (case err of
        Rejection r \<Rightarrow> Some (rj_message r)
      | ErrorObject m \<Rightarrow> Some m
      | ThrownString t \<Rightarrow> None
      | ThrownOther \<Rightarrow> None)"

definition msg_history_failed :: string where
  "msg_history_failed =
     [CHR 0xE8, CHR 0x8E, CHR 0xB7, CHR 0xE5, CHR 0x8F, CHR 0x96, CHR 0xE5, CHR 0x8E,
      CHR 0x86, CHR 0xE5, CHR 0x8F, CHR 0xB2, CHR 0xE8, CHR 0xAE, CHR 0xB0, CHR 0xE5,
      CHR 0xBD, CHR 0x95, CHR 0xE5, CHR 0xA4, CHR 0xB1, CHR 0xE8, CHR 0xB4, CHR 0xA5]"

text \<open>
  \<open>fetchHistory(page)\<close> in its two halves: what runs at once (\<open>currentPage\<close> is set
  before the request is sent), and what runs when the request settles. The query it
  sends is \<open>{limit, skip}\<close>.
\<close>

definition fetchHistory_start :: "int \<Rightarrow> HistoryStore \<Rightarrow> HistoryStore" where
  "fetchHistory_start page s = s\<lparr>hs_loading := True, hs_error := None, hs_currentPage := page\<rparr>"

definition fetchHistory_query :: "int \<Rightarrow> HistoryStore \<Rightarrow> int \<times> int" where
  "fetchHistory_query page s = (hs_pageSize s, (page - 1) * hs_pageSize s)"

definition fetchHistory_settle ::
  "HistoryListResponse settled \<Rightarrow> HistoryStore \<Rightarrow> HistoryStore" where
  "fetchHistory_settle out s =
     (case out of
        Resolved response \<Rightarrow>
          s\<lparr>hs_records := hl_records response, hs_total := hl_total response\<rparr>
      | Rejected err \<Rightarrow>
          s\<lparr>hs_error := Some (or_else (thrown_message err) msg_history_failed)\<rparr>)
     \<lparr>hs_loading := False\<rparr>"

definition fetchHistory :: "int \<Rightarrow> HistoryListResponse settled \<Rightarrow> HistoryStore \<Rightarrow> HistoryStore" where
  "fetchHistory page out s = fetchHistory_settle out (fetchHistory_start page s)"

text \<open>
  \<open>nextPage\<close> and \<open>prevPage\<close>; \<open>out\<close> is how the fetch settles if one is started.
\<close>

definition nextPage :: "HistoryListResponse settled \<Rightarrow> HistoryStore \<Rightarrow> HistoryStore" where
  "nextPage out s =
     (if less_number (hs_currentPage s) (totalPages s)
      then fetchHistory (hs_currentPage s + 1) out s else s)"

definition prevPage :: "HistoryListResponse settled \<Rightarrow> HistoryStore \<Rightarrow> HistoryStore" where
  "prevPage out s =
     (if 1 < hs_currentPage s then fetchHistory (hs_currentPage s - 1) out s else s)"

text \<open>A session of page navigation: the buttons pressed, each with its fetch's outcome.\<close>

datatype nav = NextPage | PrevPage

fun navigate :: "HistoryStore \<Rightarrow> (nav \<times> HistoryListResponse settled) list \<Rightarrow> HistoryStore" where
  "navigate s [] = s"
| "navigate s ((NextPage, out) # rest) = navigate (nextPage out s) rest"
| "navigate s ((PrevPage, out) # rest) = navigate (prevPage out s) rest"

text \<open>Every fetch of the session succeeds.\<close>

fun all_succeed :: "(nav \<times> HistoryListResponse settled) list \<Rightarrow> bool" where
  "all_succeed [] = True"
| "all_succeed ((b, Resolved response) # rest) = all_succeed rest"
| "all_succeed ((b, Rejected err) # rest) = False"

text \<open>No response of the session reports a smaller total than the one before it.\<close>

fun totals_grow :: "int \<Rightarrow> (nav \<times> HistoryListResponse settled) list \<Rightarrow> bool" where
  "totals_grow t [] = True"
| "totals_grow t ((b, Resolved response) # rest) =
     (t \<le> hl_total response \<and> totals_grow (hl_total response) rest)"
| "totals_grow t ((b, Rejected err) # rest) = totals_grow t rest"

text \<open>The current page lies in \<open>[1, totalPages]\<close>, or there is no page at all.\<close>

definition page_in_range :: "HistoryStore \<Rightarrow> bool" where
  "page_in_range s =
     (case totalPages s of
        Finite t \<Rightarrow> t < 1 \<or> (1 \<le> hs_currentPage s \<and> hs_currentPage s \<le> t)
      | PosInfinity \<Rightarrow> 1 \<le> hs_currentPage s
      | NegInfinity \<Rightarrow> True
      | NaN \<Rightarrow> True)"

section \<open>The template store (stores/templateStore.ts)\<close>

record TemplateStore =
  ts_loading :: bool
  ts_error :: "string option"
  ts_templates :: "PromptTemplate list"
  ts_currentTemplate :: "PromptTemplate option"
  ts_total :: int

record DeleteResponse =
  dr_success :: bool
  dr_message :: string

definition msg_delete_failed :: string where
  "msg_delete_failed =
     [CHR 0xE5, CHR 0x88, CHR 0xA0, CHR 0xE9, CHR 0x99, CHR 0xA4, CHR 0xE6, CHR 0xA8,
      CHR 0xA1, CHR 0xE6, CHR 0x9D, CHR 0xBF, CHR 0xE5, CHR 0xA4, CHR 0xB1, CHR 0xE8,
      CHR 0xB4, CHR 0xA5]"

text \<open>\<open>currentTemplate.value?.template_id === templateId\<close>.\<close>

definition is_current :: "TemplateStore \<Rightarrow> string \<Rightarrow> bool" where
  "is_current s templateId =
     (case ts_currentTemplate s of None \<Rightarrow> False | Some t \<Rightarrow> tp_template_id t = templateId)"

text \<open>
  \<open>deleteTemplate(templateId)\<close>: the opening assignments, then the \<open>try\<close> body when the
  service call resolves or the \<open>catch\<close> block when it rejects, then \<open>finally\<close>.
\<close>

definition deleteTemplate ::
  "string \<Rightarrow> DeleteResponse settled \<Rightarrow> TemplateStore \<Rightarrow> bool \<times> TemplateStore" where
  "deleteTemplate templateId out s =
     (let s1 = s\<lparr>ts_loading := True, ts_error := None\<rparr> in
      case out of
        Resolved response \<Rightarrow>
          (let s2 = s1\<lparr>ts_templates :=
                        filter (\<lambda>t. tp_template_id t \<noteq> templateId) (ts_templates s1)\<rparr>;
               s3 = s2\<lparr>ts_total := ts_total s2 - 1\<rparr>;
               s4 = (if is_current s3 templateId then s3\<lparr>ts_currentTemplate := None\<rparr> else s3)
           in (True, s4\<lparr>ts_loading := False\<rparr>))
      | Rejected err \<Rightarrow>
          (False,
           s1\<lparr>ts_error := Some (or_else (thrown_message err) msg_delete_failed),
              ts_loading := False\<rparr>))"

section \<open>The optimizer stage of the pipeline\<close>

text \<open>
  Modelled from the spec: the Optimizer (section 4.4) and its place in the pipeline's
  control flow (section 2). The server that runs the pipeline is not among the source
  files; only the client that calls it is. The generative-model service is the
  capability \<open>complete\<close> (\<open>completion\<close> below): given the current text and whether the stricter instruction
  is used, it answers with a candidate or fails (\<open>None\<close>). A pass submits the text,
  self-checks the candidate, retries once with the stricter instruction and otherwise
  reverts. The level gives the number of passes: none for low, one for medium, up to
  two for high. The run records every text submitted to the service.
\<close>

datatype pass_result = Accepted string | Retried string | Reverted

definition pass_count :: "OptimizationLevel \<Rightarrow> nat" where
  "pass_count level = (case level of LOW \<Rightarrow> 0 | MEDIUM \<Rightarrow> 1 | HIGH \<Rightarrow> 2)"

definition optimization_pass ::
  "(string \<Rightarrow> bool \<Rightarrow> string option) \<Rightarrow> (string \<Rightarrow> bool) \<Rightarrow> string
     \<Rightarrow> pass_result \<times> string list" where
  "optimization_pass completion self_check current =
     (case completion current False of
        None \<Rightarrow> (Reverted, [current])
      | Some candidate \<Rightarrow>
          if self_check candidate then (Accepted candidate, [current])
          else (case completion current True of
                  None \<Rightarrow> (Reverted, [current, current])
                | Some second \<Rightarrow>
                    if self_check second then (Retried second, [current, current])
                    else (Reverted, [current, current])))"

record OptimizerRun =
  run_text :: string
  run_optimized :: bool
  run_submitted :: "string list"
  run_warning :: bool

fun optimizer_passes ::
  "(string \<Rightarrow> bool \<Rightarrow> string option) \<Rightarrow> (string \<Rightarrow> bool) \<Rightarrow> nat \<Rightarrow> OptimizerRun
     \<Rightarrow> OptimizerRun" where
  "optimizer_passes completion self_check 0 r = r"
| "optimizer_passes completion self_check (Suc k) r =
     (case optimization_pass completion self_check (run_text r) of
        (Accepted t, sent) \<Rightarrow>
          optimizer_passes completion self_check k
            (r\<lparr>run_text := t, run_optimized := True, run_submitted := run_submitted r @ sent\<rparr>)
      | (Retried t, sent) \<Rightarrow>
          optimizer_passes completion self_check k
            (r\<lparr>run_text := t, run_optimized := True, run_submitted := run_submitted r @ sent\<rparr>)
      | (Reverted, sent) \<Rightarrow>
          r\<lparr>run_submitted := run_submitted r @ sent, run_warning := True\<rparr>)"

text \<open>
  The stage as the pipeline runs it on the assembler's draft: as many passes as the
  level allows; the result carries the final text and whether a rewrite was kept.
\<close>

definition optimizer_stage ::
  "(string \<Rightarrow> bool \<Rightarrow> string option) \<Rightarrow> (string \<Rightarrow> bool) \<Rightarrow> CompileRequest \<Rightarrow> CompiledPrompt
     \<Rightarrow> CompiledPrompt \<times> OptimizerRun" where
  "optimizer_stage completion self_check request draft =
     (let r0 = \<lparr>run_text = cp_full_prompt draft, run_optimized = False,
                run_submitted = [], run_warning = False\<rparr>;
          r = optimizer_passes completion self_check
                (pass_count (optimization_level request)) r0
      in (draft\<lparr>cp_full_prompt := run_text r, cp_optimized := run_optimized r\<rparr>, r))"

section \<open>The compiler view (views/PromptCompiler.vue)\<close>

text \<open>
  \<open>handleCompile\<close>: nothing is sent for an empty input; otherwise the request is built
  from the three values of the form, without a \<open>template_id\<close>, and handed to the
  store's \<open>compile\<close>.
\<close>

definition handleCompile :: "string \<Rightarrow> OptimizationLevel \<Rightarrow> bool \<Rightarrow> CompileRequest option" where
  "handleCompile userInput optimizationLevel autoEvaluate =
     (if userInput = [] then None
      else Some \<lparr>user_input = userInput, template_id = None,
                 optimization_level = optimizationLevel, auto_evaluate = autoEvaluate\<rparr>)"

section \<open>Sample values\<close>

definition sample_intent :: IntentResult where
  "sample_intent =
     \<lparr>in_task_type = ANALYSIS, in_domain = ''finance'', in_objective = ''analyse a report'',
      in_constraints = [], in_keywords = [''report''], in_context = [], in_confidence = 0.8\<rparr>"

definition sample_prompt :: CompiledPrompt where
  "sample_prompt =
     \<lparr>cp_version_id = ''v1'', cp_original_input = ''analyse a report'',
      cp_intent = sample_intent, cp_template_id = None, cp_role = ''analyst'',
      cp_objective = ''analyse a report'', cp_constraints = [], cp_output_format = ''text'',
      cp_context = [], cp_full_prompt = ''You are an analyst.'',
      cp_optimization_level = LOW, cp_optimized = False, cp_created_at = ''2024-01-01''\<rparr>"

definition sample_request :: CompileRequest where
  "sample_request =
     \<lparr>user_input = ''analyse a report'', template_id = None, optimization_level = LOW,
      auto_evaluate = True\<rparr>"

definition sample_store :: PromptStore where
  "sample_store =
     \<lparr>ps_loading = False, ps_progress = IDLE, ps_error = None,
      ps_currentPrompt = Some sample_prompt, ps_currentMetrics = None,
      ps_suggestions = [''add an output format'']\<rparr>"

definition sample_template :: "string \<Rightarrow> PromptTemplate" where
  "sample_template templateId =
     \<lparr>tp_template_id = templateId, tp_name = ''report'', tp_description = None,
      tp_role = ''analyst'', tp_objective = ''analyse'', tp_constraints = [],
      tp_output_format = ''text'', tp_context_vars = [], tp_task_types = [ANALYSIS],
      tp_domains = [], tp_tags = [], tp_created_at = ''2024-01-01'',
      tp_updated_at = ''2024-01-01'', tp_usage_count = 0, tp_avg_quality_score = 0\<rparr>"

definition sample_page :: "int \<Rightarrow> HistoryListResponse" where
  "sample_page t =
     \<lparr>hl_success = True, hl_records = [], hl_total = t, hl_page = 1, hl_page_size = 20\<rparr>"

definition sample_response :: CompileResponse where
  "sample_response =
     \<lparr>success = True, compiled_prompt = sample_prompt, metrics = None,
      suggestions = [], formatted_output = JNull\<rparr>"

definition sample_unscored :: ResponseData where
  "sample_unscored =
     \<lparr>rd_success = Some True, rd_compiled_prompt = Some (sample_prompt\<lparr>cp_version_id := ''v2''\<rparr>),
      rd_metrics = None, rd_suggestions = None, rd_formatted_output = None\<rparr>"

definition sample_malformed :: ResponseData where
  "sample_malformed =
     \<lparr>rd_success = Some False, rd_compiled_prompt = None, rd_metrics = None,
      rd_suggestions = Some [''retry''], rd_formatted_output = None\<rparr>"

text \<open>What axios rejects with when the instance's timeout runs out.\<close>

definition sample_timeout :: AxiosError where
  "sample_timeout =
     \<lparr>ae_code = Some ''ECONNABORTED'', ae_message = Some ''timeout of 120000ms exceeded'',
      ae_response = None, ae_request = True\<rparr>"

definition sample_templates :: TemplateStore where
  "sample_templates =
     \<lparr>ts_loading = False, ts_error = None,
      ts_templates = [sample_template ''a'', sample_template ''b'', sample_template ''c''],
      ts_currentTemplate = Some (sample_template ''b''), ts_total = 3\<rparr>"

section \<open>Facts about the prompt store\<close>

text \<open>A timer callback touches nothing but \<open>progress\<close>.\<close>

lemma fire_overwrite: "(fire request ev s)\<lparr>ps_progress := p\<rparr> = s\<lparr>ps_progress := p\<rparr>"
  by (cases ev) (simp_all add: fire_def tick_def reset_progress_def)

lemma pending_overwrite:
  "(last (pending_states request events s))\<lparr>ps_progress := p\<rparr> = s\<lparr>ps_progress := p\<rparr>"
proof (induction events arbitrary: s)
  case Nil
  then show ?case by simp
next
  case (Cons ev evs)
  have "pending_states request evs (fire request ev s) \<noteq> []"
    by (cases evs) simp_all
  then show ?case
    by (simp add: Cons.IH fire_overwrite)
qed

lemma pending_last:
  "last (pending_states request events s) =
     s\<lparr>ps_progress := ps_progress (last (pending_states request events s))\<rparr>"
proof -
  let ?l = "last (pending_states request events s)"
  have "?l = ?l\<lparr>ps_progress := ps_progress ?l\<rparr>" by simp
  also have "\<dots> = s\<lparr>ps_progress := ps_progress ?l\<rparr>" by (rule pending_overwrite)
  finally show ?thesis .
qed

text \<open>With interval callbacks only, the pending store is the callback iterated.\<close>

lemma pending_ticks:
  "last (pending_states request (replicate n Tick) s) = (tick request ^^ n) s"
proof (induction n arbitrary: s)
  case 0
  then show ?case by simp
next
  case (Suc n)
  have "pending_states request (replicate n Tick) (tick request s) \<noteq> []"
    by (cases n) simp_all
  then show ?case
    by (simp add: Suc.IH fire_def funpow_swap1)
qed

lemma rank_tick: "rank p \<le> rank (progress_tick request p)"
  by (cases p) (simp_all add: progress_tick_def)

text \<open>No timer callback reaches a final state.\<close>

lemma fire_pending:
  "rank (ps_progress s) \<le> 6 \<Longrightarrow> rank (ps_progress (fire request ev s)) \<le> 6"
  by (cases ev; cases "ps_progress s")
    (simp_all add: fire_def tick_def reset_progress_def progress_tick_def)

lemma pending_below:
  "rank (ps_progress s) \<le> 6 \<Longrightarrow> x \<in> set (pending_states request events s)
     \<Longrightarrow> rank (ps_progress x) \<le> 6"
proof (induction events arbitrary: s)
  case Nil
  then show ?case by simp
next
  case (Cons ev evs)
  then show ?case using fire_pending [of s request ev] by auto
qed

lemma tick_evaluating:
  "progress_tick request q = EVALUATING \<Longrightarrow> auto_evaluate request \<or> q = EVALUATING"
  by (cases q) (simp_all add: progress_tick_def split: if_splits)

lemma tick_optimizing:
  "progress_tick request q = OPTIMIZING \<Longrightarrow> optimization_level request \<noteq> LOW \<or> q = OPTIMIZING"
  by (cases q) (simp_all add: progress_tick_def split: if_splits)

lemma fire_not_evaluating:
  "\<not> auto_evaluate request \<Longrightarrow> ps_progress s \<noteq> EVALUATING
     \<Longrightarrow> ps_progress (fire request ev s) \<noteq> EVALUATING"
  using tick_evaluating [of request "ps_progress s"]
  by (cases ev) (auto simp: fire_def tick_def reset_progress_def)

lemma fire_not_optimizing:
  "optimization_level request = LOW \<Longrightarrow> ps_progress s \<noteq> OPTIMIZING
     \<Longrightarrow> ps_progress (fire request ev s) \<noteq> OPTIMIZING"
  using tick_optimizing [of request "ps_progress s"]
  by (cases ev) (auto simp: fire_def tick_def reset_progress_def)

lemma pending_not_evaluating:
  "\<not> auto_evaluate request \<Longrightarrow> ps_progress s \<noteq> EVALUATING
     \<Longrightarrow> x \<in> set (pending_states request events s) \<Longrightarrow> ps_progress x \<noteq> EVALUATING"
proof (induction events arbitrary: s)
  case Nil
  then show ?case by simp
next
  case (Cons ev evs)
  then show ?case using fire_not_evaluating [of request s ev] by auto
qed

lemma pending_not_optimizing:
  "optimization_level request = LOW \<Longrightarrow> ps_progress s \<noteq> OPTIMIZING
     \<Longrightarrow> x \<in> set (pending_states request events s) \<Longrightarrow> ps_progress x \<noteq> OPTIMIZING"
proof (induction events arbitrary: s)
  case Nil
  then show ?case by simp
next
  case (Cons ev evs)
  then show ?case using fire_not_optimizing [of request s ev] by auto
qed

text \<open>The two ways a call ends, as equations on the whole store.\<close>

lemma compile_failed:
  assumes "\<not> well_formed out"
  shows "compile request events out s =
       (None,
        s\<lparr>ps_loading := False, ps_progress := ERROR,
          ps_error := Some (error_message
            (case out of Rejected err \<Rightarrow> err | Resolved r \<Rightarrow> ErrorObject msg_bad_format))\<rparr>)"
proof -
  define p where "p = ps_progress (last (pending_states request events (compile_start s)))"
  have pend: "last (pending_states request events (compile_start s)) =
      (compile_start s)\<lparr>ps_progress := p\<rparr>"
    unfolding p_def by (rule pending_last)
  show ?thesis
  proof (cases out)
    case (Rejected err)
    then show ?thesis
      unfolding compile_def pend
      by (simp add: compile_settle_def compile_catch_def compile_start_def)
  next
    case (Resolved body)
    show ?thesis
    proof (cases body)
      case None
      with Resolved show ?thesis
        unfolding compile_def pend
        by (simp add: compile_settle_def compile_catch_def compile_start_def)
    next
      case (Some r)
      with Resolved assms have "rd_compiled_prompt r = None"
        by (simp add: well_formed_def)
      with Resolved Some show ?thesis
        unfolding compile_def pend
        by (simp add: compile_settle_def compile_catch_def compile_start_def)
    qed
  qed
qed

lemma compile_succeeded:
  assumes "rd_compiled_prompt r = Some cp"
  shows "compile request events (Resolved (Some r)) s =
       (Some r,
        s\<lparr>ps_loading := False, ps_error := None, ps_progress := COMPLETED,
          ps_currentPrompt := Some cp, ps_currentMetrics := rd_metrics r,
          ps_suggestions := (case rd_suggestions r of None \<Rightarrow> [] | Some xs \<Rightarrow> xs)\<rparr>)"
proof -
  define p where "p = ps_progress (last (pending_states request events (compile_start s)))"
  have pend: "last (pending_states request events (compile_start s)) =
      (compile_start s)\<lparr>ps_progress := p\<rparr>"
    unfolding p_def by (rule pending_last)
  show ?thesis
    unfolding compile_def pend using assms
    by (simp add: compile_settle_def compile_start_def)
qed

lemma final_progress:
  "ps_progress (snd (compile request events out s)) =
     (if well_formed out then COMPLETED else ERROR)"
  by (simp add: compile_def compile_settle_def compile_catch_def well_formed_def
      split: settled.splits option.splits prod.splits)

lemma progress_trace_eq:
  "progress_trace request events out s =
     map ps_progress (pending_states request events (compile_start s))
       @ [if well_formed out then COMPLETED else ERROR]"
  unfolding progress_trace_def final_progress ..

section \<open>The compile run\<close>

text \<open>
  What holds of the progress of every call, whatever timers fire: the evaluating
  state occurs only if the request's \<open>auto_evaluate\<close> is set, the trace ends in
  \<open>COMPLETED\<close> exactly when the response is well formed and in \<open>ERROR\<close> exactly when
  the call is rejected or the response is falsy or lacks a compiled prompt, and that
  last value is the one the store holds when the call returns.
\<close>

lemma progress_ends:
  "(EVALUATING \<in> set (progress_trace request events out s) \<longrightarrow> auto_evaluate request)
   \<and> (last (progress_trace request events out s) = COMPLETED) = well_formed out
   \<and> (last (progress_trace request events out s) = ERROR) = (\<not> well_formed out)
   \<and> ps_progress (snd (compile request events out s)) =
       last (progress_trace request events out s)
   \<and> ps_progress (reset_progress (snd (compile request events out s))) =
       (if well_formed out then IDLE else ERROR)"
proof -
  have eval: "auto_evaluate request"
    if "EVALUATING \<in> set (progress_trace request events out s)"
  proof (rule ccontr)
    assume off: "\<not> auto_evaluate request"
    from that obtain x where "x \<in> set (pending_states request events (compile_start s))"
      and "ps_progress x = EVALUATING"
      by (auto simp: progress_trace_eq split: if_splits)
    moreover have "ps_progress (compile_start s) \<noteq> EVALUATING"
      by (simp add: compile_start_def)
    ultimately show False
      using pending_not_evaluating [OF off] by blast
  qed
  have reset: "ps_progress (reset_progress (snd (compile request events out s))) =
       (if well_formed out then IDLE else ERROR)"
    by (simp add: reset_progress_def final_progress)
  show ?thesis
    using eval reset by (simp add: progress_trace_eq final_progress)
qed

text \<open>
  A call during which only its own interval callback fires moves forward only, in
  the order of the declaration of \<open>CompileProgress\<close>.
\<close>

lemma ticks_rank_ge:
  "EarlierReset \<notin> set events \<Longrightarrow> x \<in> set (pending_states request events s)
     \<Longrightarrow> rank (ps_progress s) \<le> rank (ps_progress x)"
proof (induction events arbitrary: s)
  case Nil
  then show ?case by simp
next
  case (Cons ev evs)
  from Cons.prems have ev: "ev = Tick" by (cases ev) simp_all
  have step: "rank (ps_progress s) \<le> rank (ps_progress (fire request ev s))"
    by (simp add: ev fire_def tick_def rank_tick)
  from Cons.prems consider "x = s" | "x \<in> set (pending_states request evs (fire request ev s))"
    by auto
  then show ?case
  proof cases
    case 1
    then show ?thesis by simp
  next
    case 2
    with Cons.IH [of "fire request ev s"] Cons.prems(1) step show ?thesis
      by fastforce
  qed
qed

lemma ticks_sorted:
  "EarlierReset \<notin> set events \<Longrightarrow>
     sorted_wrt (\<lambda>p q. rank p \<le> rank q) (map ps_progress (pending_states request events s))"
proof (induction events arbitrary: s)
  case Nil
  then show ?case by simp
next
  case (Cons ev evs)
  from Cons.prems have ev: "ev = Tick" and rest: "EarlierReset \<notin> set evs"
    by (cases ev; simp)+
  have step: "rank (ps_progress s) \<le> rank (ps_progress (fire request ev s))"
    by (simp add: ev fire_def tick_def rank_tick)
  have "rank (ps_progress s) \<le> rank (ps_progress x)"
    if "x \<in> set (pending_states request evs (fire request ev s))" for x
    using ticks_rank_ge [OF rest that] step by simp
  with Cons.IH [OF rest] show ?case by auto
qed

lemma isolated_progress_order:
  assumes "EarlierReset \<notin> set events"
  shows "sorted_wrt (\<lambda>p q. rank p \<le> rank q) (progress_trace request events out s)"
proof -
  let ?pending = "map ps_progress (pending_states request events (compile_start s))"
  let ?final = "if well_formed out then COMPLETED else ERROR"
  have "rank p \<le> rank ?final" if "p \<in> set ?pending" for p
  proof -
    from that obtain x where "x \<in> set (pending_states request events (compile_start s))"
      and "p = ps_progress x" by auto
    moreover have "rank (ps_progress (compile_start s)) \<le> 6"
      by (simp add: compile_start_def)
    ultimately have "rank p \<le> 6" using pending_below by blast
    then show ?thesis by simp
  qed
  with ticks_sorted [OF assms] show ?thesis
    by (simp add: progress_trace_eq sorted_wrt_append)
qed

text \<open>
  C2. The claim asks that the progress of a compile request only moves forward until
  the run ends. The code does not keep that for a request started within two seconds
  of a successful one: the earlier call's reset callback is still scheduled, fires
  while the new request is pending and writes \<open>IDLE\<close> over \<open>STARTING\<close>; the interval
  callback has no branch for \<open>IDLE\<close>, so the progress stays there until the
  settlement. Here the first call is answered at once, and during the second the
  earlier reset fires before the first interval callback.
\<close>

theorem earlier_reset_moves_progress_back:
  "progress_trace sample_request [EarlierReset, Tick]
       (Resolved (Some (response_data sample_response)))
       (snd (compile sample_request [] (Resolved (Some (response_data sample_response)))
          sample_store)) =
     [STARTING, IDLE, IDLE, COMPLETED]
   \<and> \<not> sorted_wrt (\<lambda>p q. rank p \<le> rank q) [STARTING, IDLE, IDLE, COMPLETED]"
proof -
  have wf: "well_formed (Resolved (Some (response_data sample_response)))"
    by (simp add: well_formed_def response_data_def)
  show ?thesis
    by (simp add: progress_trace_eq wf fire_def tick_def reset_progress_def
        compile_start_def progress_tick_def)
qed

text \<open>
  C3. For a request whose level is low the optimizer is skipped. On the client, the
  optimizing state never occurs in the progress trace of the call. In the pipeline
  (the stage modelled from the spec) nothing is submitted to the generative-model
  service, and the result is the assembler's draft with \<open>optimized = false\<close>: its
  \<open>full_prompt\<close> is the draft's render.
\<close>

theorem low_level_skips_optimizer:
  "optimization_level request = LOW \<Longrightarrow>
     OPTIMIZING \<notin> set (progress_trace request events out s)
   \<and> run_submitted (snd (optimizer_stage completion self_check request draft)) = []
   \<and> fst (optimizer_stage completion self_check request draft) = draft\<lparr>cp_optimized := False\<rparr>
   \<and> cp_optimized (fst (optimizer_stage completion self_check request draft)) = False
   \<and> cp_full_prompt (fst (optimizer_stage completion self_check request draft)) =
       cp_full_prompt draft"
proof -
  assume low: "optimization_level request = LOW"
  have "OPTIMIZING \<notin> set (progress_trace request events out s)"
  proof
    assume "OPTIMIZING \<in> set (progress_trace request events out s)"
    then obtain x where "x \<in> set (pending_states request events (compile_start s))"
      and "ps_progress x = OPTIMIZING"
      by (auto simp: progress_trace_eq split: if_splits)
    moreover have "ps_progress (compile_start s) \<noteq> OPTIMIZING"
      by (simp add: compile_start_def)
    ultimately show False
      using pending_not_optimizing [OF low] by blast
  qed
  then show ?thesis using low by (simp add: optimizer_stage_def pass_count_def)
qed

theorem low_level_skips_optimizer_witness:
  "optimization_level sample_request = LOW
   \<and> progress_trace sample_request [Tick, Tick, Tick] (Rejected ThrownOther) sample_store =
       [STARTING, EXTRACTING_INTENT, GENERATING_PROMPT, SELF_CHECKING, ERROR]
   \<and> OPTIMIZING \<notin> set (progress_trace sample_request [Tick, Tick, Tick]
        (Rejected ThrownOther) sample_store)
   \<and> run_submitted (snd (optimizer_stage (\<lambda>t strict. Some (t @ ''!'')) (\<lambda>t. True)
        sample_request sample_prompt)) = []
   \<and> fst (optimizer_stage (\<lambda>t strict. Some (t @ ''!'')) (\<lambda>t. True)
        sample_request sample_prompt) = sample_prompt"
proof -
  have low: "optimization_level sample_request = LOW"
    by (simp add: sample_request_def)
  have tr: "progress_trace sample_request [Tick, Tick, Tick] (Rejected ThrownOther)
        sample_store =
       [STARTING, EXTRACTING_INTENT, GENERATING_PROMPT, SELF_CHECKING, ERROR]"
    by (simp add: progress_trace_eq well_formed_def fire_def tick_def compile_start_def
        progress_tick_def sample_request_def)
  have unopt: "sample_prompt\<lparr>cp_optimized := False\<rparr> = sample_prompt"
    by (simp add: sample_prompt_def)
  from low_level_skips_optimizer [OF low, of "[Tick, Tick, Tick]" "Rejected ThrownOther"
      sample_store "\<lambda>t strict. Some (t @ ''!'')" "\<lambda>t. True" sample_prompt] low tr unopt
  show ?thesis by simp
qed

text \<open>
  C4. A response that carries a compiled prompt but no metrics does not fail the run:
  \<open>compile\<close> returns the response, stores its compiled prompt, records the metrics as
  absent, takes the response's suggestions or the empty list when it has none, ends
  in the completed state and leaves no error.
\<close>

theorem evaluation_failure_non_fatal:
  "rd_compiled_prompt r = Some cp \<Longrightarrow> rd_metrics r = None \<Longrightarrow>
     fst (compile request events (Resolved (Some r)) s) = Some r
   \<and> ps_currentPrompt (snd (compile request events (Resolved (Some r)) s)) = Some cp
   \<and> ps_currentMetrics (snd (compile request events (Resolved (Some r)) s)) = None
   \<and> ps_suggestions (snd (compile request events (Resolved (Some r)) s)) =
       (case rd_suggestions r of None \<Rightarrow> [] | Some xs \<Rightarrow> xs)
   \<and> ps_progress (snd (compile request events (Resolved (Some r)) s)) = COMPLETED
   \<and> ps_error (snd (compile request events (Resolved (Some r)) s)) = None"
  by (simp add: compile_succeeded)

theorem evaluation_failure_non_fatal_witness:
  "rd_compiled_prompt sample_unscored = Some (sample_prompt\<lparr>cp_version_id := ''v2''\<rparr>)
   \<and> rd_metrics sample_unscored = None
   \<and> fst (compile sample_request [Tick, Tick] (Resolved (Some sample_unscored))
        sample_store) = Some sample_unscored
   \<and> ps_currentPrompt (snd (compile sample_request [Tick, Tick]
        (Resolved (Some sample_unscored)) sample_store)) =
       Some (sample_prompt\<lparr>cp_version_id := ''v2''\<rparr>)
   \<and> ps_currentMetrics (snd (compile sample_request [Tick, Tick]
        (Resolved (Some sample_unscored)) sample_store)) = None
   \<and> ps_suggestions (snd (compile sample_request [Tick, Tick]
        (Resolved (Some sample_unscored)) sample_store)) = []
   \<and> ps_progress (snd (compile sample_request [Tick, Tick]
        (Resolved (Some sample_unscored)) sample_store)) = COMPLETED"
proof -
  have cp: "rd_compiled_prompt sample_unscored = Some (sample_prompt\<lparr>cp_version_id := ''v2''\<rparr>)"
    and no_metrics: "rd_metrics sample_unscored = None"
    and no_suggestions: "rd_suggestions sample_unscored = None"
    by (simp_all add: sample_unscored_def)
  from evaluation_failure_non_fatal [OF cp no_metrics, of sample_request "[Tick, Tick]"
      sample_store] cp no_metrics no_suggestions
  show ?thesis by simp
qed

text \<open>
  C8. \<open>compile\<close> is atomic on error: when the service call is rejected, or resolves
  with a falsy response or one without a compiled prompt, \<open>compile\<close> returns null, the
  error field holds a message, the progress is the error state, and \<open>currentPrompt\<close>,
  \<open>currentMetrics\<close> and \<open>suggestions\<close> keep the values they had before the call.
\<close>

theorem compile_atomic_on_error:
  "\<not> well_formed out \<Longrightarrow>
     fst (compile request events out s) = None
   \<and> ps_error (snd (compile request events out s)) \<noteq> None
   \<and> ps_progress (snd (compile request events out s)) = ERROR
   \<and> ps_currentPrompt (snd (compile request events out s)) = ps_currentPrompt s
   \<and> ps_currentMetrics (snd (compile request events out s)) = ps_currentMetrics s
   \<and> ps_suggestions (snd (compile request events out s)) = ps_suggestions s"
  by (simp add: compile_failed)

theorem compile_atomic_on_error_witness:
  "\<not> well_formed (Resolved (Some sample_malformed))
   \<and> fst (compile sample_request [Tick, Tick, Tick, Tick] (Resolved (Some sample_malformed))
        sample_store) = None
   \<and> ps_error (snd (compile sample_request [Tick, Tick, Tick, Tick]
        (Resolved (Some sample_malformed)) sample_store)) \<noteq> None
   \<and> ps_progress (snd (compile sample_request [Tick, Tick, Tick, Tick]
        (Resolved (Some sample_malformed)) sample_store)) = ERROR
   \<and> ps_currentPrompt (snd (compile sample_request [Tick, Tick, Tick, Tick]
        (Resolved (Some sample_malformed)) sample_store)) = Some sample_prompt
   \<and> ps_suggestions (snd (compile sample_request [Tick, Tick, Tick, Tick]
        (Resolved (Some sample_malformed)) sample_store)) = [''add an output format'']"
proof -
  have bad: "\<not> well_formed (Resolved (Some sample_malformed))"
    by (simp add: well_formed_def sample_malformed_def)
  have before: "ps_currentPrompt sample_store = Some sample_prompt"
    "ps_suggestions sample_store = [''add an output format'']"
    by (simp_all add: sample_store_def)
  from compile_atomic_on_error [OF bad, of sample_request "[Tick, Tick, Tick, Tick]"
      sample_store] bad before
  show ?thesis by simp
qed

section \<open>Timeouts\<close>

text \<open>
  C5. Every outbound service call carries the timeout configured on the API client
  (120000 ms; a client configured with another value gives its calls that value). A
  call that times out is rejected with the structured value \<open>{status: 0, message}\<close>
  whose message is the timeout text, and the caller handles it: \<open>compile\<close> returns
  null with that message in the error field instead of throwing.
\<close>

theorem timeout_is_recoverable:
  "oc_timeout_ms (outbound c) = timeout_ms apiClient
   \<and> timeout_ms apiClient = 120000
   \<and> oc_timeout_ms (request_via (cfg\<lparr>timeout_ms := t\<rparr>) m path) = t
   \<and> (is_timeout e \<longrightarrow>
        response_error e = \<lparr>rj_status = 0, rj_message = msg_timeout, rj_data = None\<rparr>
      \<and> compile request events (Rejected (Rejection (response_error e))) s =
          (None, s\<lparr>ps_loading := False, ps_progress := ERROR, ps_error := Some msg_timeout\<rparr>))"
proof -
  have "oc_timeout_ms (outbound c) = timeout_ms apiClient"
    by (cases c) (simp_all add: request_via_def)
  moreover have "timeout_ms apiClient = 120000"
    by (simp add: apiClient_def)
  moreover have "oc_timeout_ms (request_via (cfg\<lparr>timeout_ms := t\<rparr>) m path) = t"
    by (simp add: request_via_def)
  moreover have "compile request events (Rejected (Rejection (response_error e))) s =
          (None, s\<lparr>ps_loading := False, ps_progress := ERROR, ps_error := Some msg_timeout\<rparr>)"
    if "is_timeout e"
    using that
    by (simp add: compile_failed well_formed_def response_error_def error_message_def
        msg_timeout_def)
  ultimately show ?thesis by (simp add: response_error_def)
qed

theorem timeout_is_recoverable_witness:
  "is_timeout sample_timeout
   \<and> oc_timeout_ms (outbound (PromptCompile sample_request)) = 120000
   \<and> response_error sample_timeout =
       \<lparr>rj_status = 0, rj_message = msg_timeout, rj_data = None\<rparr>
   \<and> fst (compile sample_request (replicate 39 Tick)
        (Rejected (Rejection (response_error sample_timeout))) sample_store) = None
   \<and> ps_error (snd (compile sample_request (replicate 39 Tick)
        (Rejected (Rejection (response_error sample_timeout))) sample_store)) =
       Some msg_timeout"
proof -
  have timed_out: "is_timeout sample_timeout"
    by (simp add: is_timeout_def sample_timeout_def)
  note fact = timeout_is_recoverable [where c = "PromptCompile sample_request"
      and cfg = apiClient and t = 120000 and m = POST and path = "''/compile''"
      and e = sample_timeout and request = sample_request and events = "replicate 39 Tick"
      and s = sample_store]
  from fact have call: "oc_timeout_ms (outbound (PromptCompile sample_request)) = 120000"
    by simp
  from fact timed_out have rejected: "response_error sample_timeout =
       \<lparr>rj_status = 0, rj_message = msg_timeout, rj_data = None\<rparr>"
    by blast
  from fact timed_out have handled:
    "compile sample_request (replicate 39 Tick)
       (Rejected (Rejection (response_error sample_timeout))) sample_store =
     (None, sample_store\<lparr>ps_loading := False, ps_progress := ERROR,
        ps_error := Some msg_timeout\<rparr>)"
    by blast
  show ?thesis
    unfolding handled using timed_out call rejected by simp
qed

section \<open>Pagination of the history store\<close>

lemma pages_mono:
  "0 < ps \<Longrightarrow> t \<le> t'
     \<Longrightarrow> \<lceil>real_of_int t / real_of_int ps\<rceil> \<le> \<lceil>real_of_int t' / real_of_int ps\<rceil>"
  by (simp add: ceiling_mono divide_right_mono)

lemma totalPages_finite:
  "hs_pageSize s \<noteq> 0 \<Longrightarrow>
     totalPages s = Finite \<lceil>real_of_int (hs_total s) / real_of_int (hs_pageSize s)\<rceil>"
  by (simp add: totalPages_def)

lemma fetchHistory_fields:
  "hs_currentPage (fetchHistory page out s) = page"
  "hs_pageSize (fetchHistory page out s) = hs_pageSize s"
  "hs_total (fetchHistory page out s) =
     (case out of Resolved response \<Rightarrow> hl_total response | Rejected err \<Rightarrow> hs_total s)"
  by (simp_all add: fetchHistory_def fetchHistory_settle_def fetchHistory_start_def
      split: settled.splits)

lemma nextPage_page:
  "0 < hs_pageSize s \<Longrightarrow>
     hs_currentPage (nextPage out s) =
       (if hs_currentPage s < \<lceil>real_of_int (hs_total s) / real_of_int (hs_pageSize s)\<rceil>
        then hs_currentPage s + 1 else hs_currentPage s)"
  by (simp add: nextPage_def totalPages_def fetchHistory_fields)

lemma prevPage_page:
  "hs_currentPage (prevPage out s) =
     (if 1 < hs_currentPage s then hs_currentPage s - 1 else hs_currentPage s)"
  by (simp add: prevPage_def fetchHistory_fields)

text \<open>
  One press of a button keeps the page between 1 and the page count, provided the
  total it leaves behind is not smaller than the one it found.
\<close>

lemma nextPage_keeps:
  assumes "0 < hs_pageSize s" "1 \<le> hs_currentPage s"
    "hs_currentPage s \<le> max 1 \<lceil>real_of_int (hs_total s) / real_of_int (hs_pageSize s)\<rceil>"
    "hs_total s \<le> hs_total (nextPage out s)"
  shows "hs_pageSize (nextPage out s) = hs_pageSize s \<and> 1 \<le> hs_currentPage (nextPage out s)
    \<and> hs_currentPage (nextPage out s) \<le>
         max 1 \<lceil>real_of_int (hs_total (nextPage out s)) / real_of_int (hs_pageSize s)\<rceil>"
proof -
  have ps: "hs_pageSize (nextPage out s) = hs_pageSize s"
    by (simp add: nextPage_def fetchHistory_fields)
  have mono: "\<lceil>real_of_int (hs_total s) / real_of_int (hs_pageSize s)\<rceil>
      \<le> \<lceil>real_of_int (hs_total (nextPage out s)) / real_of_int (hs_pageSize s)\<rceil>"
    using assms(1,4) by (rule pages_mono)
  show ?thesis
    using assms(1-3) mono ps by (auto simp: nextPage_page)
qed

lemma prevPage_keeps:
  assumes "0 < hs_pageSize s" "1 \<le> hs_currentPage s"
    "hs_currentPage s \<le> max 1 \<lceil>real_of_int (hs_total s) / real_of_int (hs_pageSize s)\<rceil>"
    "hs_total s \<le> hs_total (prevPage out s)"
  shows "hs_pageSize (prevPage out s) = hs_pageSize s \<and> 1 \<le> hs_currentPage (prevPage out s)
    \<and> hs_currentPage (prevPage out s) \<le>
         max 1 \<lceil>real_of_int (hs_total (prevPage out s)) / real_of_int (hs_pageSize s)\<rceil>"
proof -
  have ps: "hs_pageSize (prevPage out s) = hs_pageSize s"
    by (simp add: prevPage_def fetchHistory_fields)
  have mono: "\<lceil>real_of_int (hs_total s) / real_of_int (hs_pageSize s)\<rceil>
      \<le> \<lceil>real_of_int (hs_total (prevPage out s)) / real_of_int (hs_pageSize s)\<rceil>"
    using assms(1,4) by (rule pages_mono)
  show ?thesis
    using assms(1-3) mono ps by (auto simp: prevPage_page)
qed

lemma navigate_keeps:
  "0 < hs_pageSize s \<Longrightarrow> 1 \<le> hs_currentPage s \<Longrightarrow>
   hs_currentPage s \<le> max 1 \<lceil>real_of_int (hs_total s) / real_of_int (hs_pageSize s)\<rceil> \<Longrightarrow>
   hs_total s \<le> t \<Longrightarrow> totals_grow t ops \<Longrightarrow>
     0 < hs_pageSize (navigate s ops) \<and> 1 \<le> hs_currentPage (navigate s ops)
   \<and> hs_currentPage (navigate s ops) \<le>
        max 1 \<lceil>real_of_int (hs_total (navigate s ops))
                 / real_of_int (hs_pageSize (navigate s ops))\<rceil>"
proof (induction s ops arbitrary: t rule: navigate.induct)
  case (1 s)
  then show ?case by simp
next
  case (2 s out rest)
  show ?case
  proof (cases out)
    case (Resolved response)
    with 2 have le: "hs_total s \<le> hl_total response"
      and grow: "totals_grow (hl_total response) rest"
      by simp_all
    have tot: "hs_total s \<le> hs_total (nextPage out s)"
      "hs_total (nextPage out s) \<le> hl_total response"
      using le Resolved by (simp_all add: nextPage_def fetchHistory_fields)
    from nextPage_keeps [OF "2.prems"(1-3) tot(1)] tot(2) grow "2.prems"(1)
    show ?thesis using "2.IH" [of "hl_total response"] by simp
  next
    case (Rejected err)
    with 2 have grow: "totals_grow t rest" by simp
    have tot: "hs_total s \<le> hs_total (nextPage out s)" "hs_total (nextPage out s) \<le> t"
      using Rejected "2.prems"(4) by (simp_all add: nextPage_def fetchHistory_fields)
    from nextPage_keeps [OF "2.prems"(1-3) tot(1)] tot(2) grow "2.prems"(1)
    show ?thesis using "2.IH" [of t] by simp
  qed
next
  case (3 s out rest)
  show ?case
  proof (cases out)
    case (Resolved response)
    with 3 have le: "hs_total s \<le> hl_total response"
      and grow: "totals_grow (hl_total response) rest"
      by simp_all
    have tot: "hs_total s \<le> hs_total (prevPage out s)"
      "hs_total (prevPage out s) \<le> hl_total response"
      using le Resolved by (simp_all add: prevPage_def fetchHistory_fields)
    from prevPage_keeps [OF "3.prems"(1-3) tot(1)] tot(2) grow "3.prems"(1)
    show ?thesis using "3.IH" [of "hl_total response"] by simp
  next
    case (Rejected err)
    with 3 have grow: "totals_grow t rest" by simp
    have tot: "hs_total s \<le> hs_total (prevPage out s)" "hs_total (prevPage out s) \<le> t"
      using Rejected "3.prems"(4) by (simp_all add: prevPage_def fetchHistory_fields)
    from prevPage_keeps [OF "3.prems"(1-3) tot(1)] tot(2) grow "3.prems"(1)
    show ?thesis using "3.IH" [of t] by simp
  qed
qed

text \<open>
  C9, as amended. With a positive page size (it is 20 from the start and nothing
  assigns it), \<open>totalPages\<close> is the ceiling of \<open>total / pageSize\<close>; \<open>nextPage\<close> adds one
  to \<open>currentPage\<close> when it is below \<open>totalPages\<close> and otherwise leaves it; \<open>prevPage\<close>
  takes one off when it is above 1 and otherwise leaves it; and a session of
  navigation that starts on page 1 keeps \<open>currentPage\<close> within \<open>[1, totalPages]\<close>
  whenever \<open>totalPages\<close> is at least 1, as long as no response reports a smaller total
  than the one before it.
\<close>

theorem history_pagination:
  "0 < hs_pageSize s \<Longrightarrow>
     totalPages s = Finite \<lceil>real_of_int (hs_total s) / real_of_int (hs_pageSize s)\<rceil>
   \<and> hs_currentPage (nextPage out s) =
       (if hs_currentPage s < \<lceil>real_of_int (hs_total s) / real_of_int (hs_pageSize s)\<rceil>
        then hs_currentPage s + 1 else hs_currentPage s)
   \<and> hs_currentPage (prevPage out s) =
       (if 1 < hs_currentPage s then hs_currentPage s - 1 else hs_currentPage s)
   \<and> (hs_currentPage s = 1 \<and> totals_grow (hs_total s) ops \<longrightarrow>
        page_in_range (navigate s ops))"
proof -
  assume ps: "0 < hs_pageSize s"
  have "page_in_range (navigate s ops)" if "hs_currentPage s = 1" "totals_grow (hs_total s) ops"
  proof -
    define s' where "s' = navigate s ops"
    define c where "c = \<lceil>real_of_int (hs_total s') / real_of_int (hs_pageSize s')\<rceil>"
    from navigate_keeps [OF ps, of "hs_total s" ops] that
    have "0 < hs_pageSize s'" "1 \<le> hs_currentPage s'" "hs_currentPage s' \<le> max 1 c"
      by (simp_all add: s'_def c_def)
    moreover from this have "totalPages s' = Finite c"
      by (simp add: totalPages_def c_def)
    ultimately have "page_in_range s'"
      unfolding page_in_range_def by auto
    then show ?thesis by (simp add: s'_def)
  qed
  then show ?thesis
    using ps by (simp add: totalPages_finite nextPage_page prevPage_page)
qed

theorem history_pagination_witness:
  "0 < hs_pageSize (fetchHistory 1 (Resolved (sample_page 40)) history_init)
   \<and> hs_currentPage (fetchHistory 1 (Resolved (sample_page 40)) history_init) = 1
   \<and> totals_grow (hs_total (fetchHistory 1 (Resolved (sample_page 40)) history_init))
       [(NextPage, Resolved (sample_page 40)), (NextPage, Resolved (sample_page 45)),
        (PrevPage, Rejected ThrownOther)]
   \<and> totalPages (fetchHistory 1 (Resolved (sample_page 40)) history_init) = Finite 2
   \<and> hs_currentPage (nextPage (Resolved (sample_page 40))
        (fetchHistory 1 (Resolved (sample_page 40)) history_init)) = 2
   \<and> page_in_range (navigate (fetchHistory 1 (Resolved (sample_page 40)) history_init)
       [(NextPage, Resolved (sample_page 40)), (NextPage, Resolved (sample_page 45)),
        (PrevPage, Rejected ThrownOther)])"
proof -
  let ?s = "fetchHistory 1 (Resolved (sample_page 40)) history_init"
  let ?ops = "[(NextPage, Resolved (sample_page 40)), (NextPage, Resolved (sample_page 45)),
        (PrevPage, Rejected ThrownOther)]"
  have fields: "hs_pageSize ?s = 20" "hs_currentPage ?s = 1" "hs_total ?s = 40"
    by (simp_all add: fetchHistory_fields history_init_def sample_page_def)
  have "totals_grow 40 ?ops"
    by (simp add: sample_page_def)
  then have grow: "totals_grow (hs_total ?s) ?ops"
    unfolding fields .
  have ps: "0 < hs_pageSize ?s"
    unfolding fields by simp
  note fact = history_pagination [OF ps, of "Resolved (sample_page 40)" ?ops]
  from fact have pages: "totalPages ?s = Finite 2"
    unfolding fields by simp
  from fact have step: "hs_currentPage (nextPage (Resolved (sample_page 40)) ?s) = 2"
    unfolding fields by simp
  from fact fields(2) grow have "page_in_range (navigate ?s ?ops)"
    by blast
  with ps fields(2) grow pages step show ?thesis
    by blast
qed

text \<open>
  The claim as first stated asks only that the fetches succeed. A successful fetch
  may report fewer records than the store knew of: from page 1 of 2, \<open>nextPage\<close> goes
  to page 2 while the response says one page is left.
\<close>

theorem history_pagination_counterexample:
  "all_succeed [(NextPage, Resolved (sample_page 20))]
   \<and> hs_currentPage (fetchHistory 1 (Resolved (sample_page 40)) history_init) = 1
   \<and> totalPages (navigate (fetchHistory 1 (Resolved (sample_page 40)) history_init)
        [(NextPage, Resolved (sample_page 20))]) = Finite 1
   \<and> hs_currentPage (navigate (fetchHistory 1 (Resolved (sample_page 40)) history_init)
        [(NextPage, Resolved (sample_page 20))]) = 2
   \<and> \<not> page_in_range (navigate (fetchHistory 1 (Resolved (sample_page 40)) history_init)
        [(NextPage, Resolved (sample_page 20))])"
  by (simp add: page_in_range_def totalPages_def nextPage_def fetchHistory_def
      fetchHistory_settle_def fetchHistory_start_def history_init_def sample_page_def)

section \<open>Deleting a template\<close>

text \<open>
  C10. When \<open>deleteTemplate(id)\<close> succeeds, the list of templates is the previous list
  without the entries whose \<open>template_id\<close> is \<open>id\<close> (the others in their order,
  untouched), \<open>total\<close> is one less, and \<open>currentTemplate\<close> is null if it had that id and
  is otherwise what it was.
\<close>

theorem deleteTemplate_effect:
  "fst (deleteTemplate templateId out s) \<Longrightarrow>
     ts_templates (snd (deleteTemplate templateId out s)) =
       filter (\<lambda>t. tp_template_id t \<noteq> templateId) (ts_templates s)
   \<and> ts_total (snd (deleteTemplate templateId out s)) = ts_total s - 1
   \<and> ts_currentTemplate (snd (deleteTemplate templateId out s)) =
       (if is_current s templateId then None else ts_currentTemplate s)"
  by (cases out) (simp_all add: deleteTemplate_def Let_def is_current_def)

theorem deleteTemplate_effect_witness:
  "fst (deleteTemplate ''b'' (Resolved \<lparr>dr_success = True, dr_message = ''deleted''\<rparr>)
     sample_templates)
   \<and> ts_templates (snd (deleteTemplate ''b''
        (Resolved \<lparr>dr_success = True, dr_message = ''deleted''\<rparr>) sample_templates)) =
       [sample_template ''a'', sample_template ''c'']
   \<and> ts_total (snd (deleteTemplate ''b''
        (Resolved \<lparr>dr_success = True, dr_message = ''deleted''\<rparr>) sample_templates)) = 2
   \<and> ts_currentTemplate (snd (deleteTemplate ''b''
        (Resolved \<lparr>dr_success = True, dr_message = ''deleted''\<rparr>) sample_templates)) = None"
proof -
  let ?out = "Resolved \<lparr>dr_success = True, dr_message = ''deleted''\<rparr>"
  have ok: "fst (deleteTemplate ''b'' ?out sample_templates)"
    by (simp add: deleteTemplate_def Let_def)
  have before: "ts_templates sample_templates =
      [sample_template ''a'', sample_template ''b'', sample_template ''c'']"
    "ts_total sample_templates = 3" "is_current sample_templates ''b''"
    by (simp_all add: sample_templates_def is_current_def sample_template_def)
  from deleteTemplate_effect [OF ok] before
  show ?thesis by (simp add: ok sample_template_def)
qed

section \<open>The compile contract\<close>

text \<open>
  C1, as amended. A compile request is the record \<open>{user_input, template_id?,
  optimization_level, auto_evaluate}\<close>; the requests the view builds have a non-empty
  \<open>user_input\<close> and no \<open>template_id\<close>. A compile response is accepted, and returned
  as it came, exactly when it carries a \<open>compiled_prompt\<close>; every response of the
  declared type is. Its \<open>metrics\<close> and its \<open>suggestions\<close> may be missing, and are
  then kept as null and as the empty list. It may carry further members (the declared
  type adds \<open>success\<close> and \<open>formatted_output\<close>); the store does not read them: two
  responses that agree on \<open>compiled_prompt\<close>, \<open>metrics\<close> and \<open>suggestions\<close> leave the
  same store.
\<close>

theorem compile_contract:
  "(handleCompile userInput level autoEvaluate = Some request \<longrightarrow>
      userInput \<noteq> []
    \<and> request = \<lparr>user_input = userInput, template_id = None, optimization_level = level,
        auto_evaluate = autoEvaluate\<rparr>)
   \<and> (fst (compile request events (Resolved (Some r)) s) = Some r) =
       (rd_compiled_prompt r \<noteq> None)
   \<and> (fst (compile request events (Resolved (Some r)) s) = None) =
       (rd_compiled_prompt r = None)
   \<and> fst (compile request events (Resolved (Some (response_data typed))) s) =
       Some (response_data typed)
   \<and> (rd_compiled_prompt r = Some cp \<longrightarrow>
        ps_currentPrompt (snd (compile request events (Resolved (Some r)) s)) = Some cp
      \<and> ps_currentMetrics (snd (compile request events (Resolved (Some r)) s)) = rd_metrics r
      \<and> ps_suggestions (snd (compile request events (Resolved (Some r)) s)) =
          (case rd_suggestions r of None \<Rightarrow> [] | Some xs \<Rightarrow> xs))
   \<and> (rd_compiled_prompt r' = rd_compiled_prompt r \<and> rd_metrics r' = rd_metrics r
        \<and> rd_suggestions r' = rd_suggestions r \<longrightarrow>
        snd (compile request events (Resolved (Some r')) s) =
        snd (compile request events (Resolved (Some r)) s))"
proof -
  have built: "userInput \<noteq> [] \<and> request =
      \<lparr>user_input = userInput, template_id = None, optimization_level = level,
       auto_evaluate = autoEvaluate\<rparr>"
    if "handleCompile userInput level autoEvaluate = Some request"
    using that by (auto simp: handleCompile_def split: if_splits)
  have returned: "fst (compile request events (Resolved (Some x)) s) =
      (if rd_compiled_prompt x = None then None else Some x)" for x
  proof (cases "rd_compiled_prompt x")
    case None
    then show ?thesis by (simp add: compile_failed well_formed_def)
  next
    case (Some c)
    then show ?thesis by (simp add: compile_succeeded)
  qed
  have typed: "fst (compile request events (Resolved (Some (response_data typed))) s) =
       Some (response_data typed)"
    by (simp add: returned response_data_def)
  have kept: "ps_currentPrompt (snd (compile request events (Resolved (Some r)) s)) = Some cp
      \<and> ps_currentMetrics (snd (compile request events (Resolved (Some r)) s)) = rd_metrics r
      \<and> ps_suggestions (snd (compile request events (Resolved (Some r)) s)) =
          (case rd_suggestions r of None \<Rightarrow> [] | Some xs \<Rightarrow> xs)"
    if "rd_compiled_prompt r = Some cp"
    using that by (simp add: compile_succeeded)
  have same: "snd (compile request events (Resolved (Some r')) s) =
        snd (compile request events (Resolved (Some r)) s)"
    if "rd_compiled_prompt r' = rd_compiled_prompt r" "rd_metrics r' = rd_metrics r"
      "rd_suggestions r' = rd_suggestions r"
  proof (cases "rd_compiled_prompt r")
    case None
    with that show ?thesis by (simp add: compile_failed well_formed_def)
  next
    case (Some c)
    with that show ?thesis by (simp add: compile_succeeded)
  qed
  show ?thesis
    using built typed kept same by (simp add: returned)
qed

theorem compile_contract_witness:
  "handleCompile ''analyse a report'' LOW True = Some sample_request
   \<and> rd_compiled_prompt sample_unscored = Some (sample_prompt\<lparr>cp_version_id := ''v2''\<rparr>)
   \<and> rd_compiled_prompt (sample_unscored\<lparr>rd_success := None, rd_formatted_output := Some JNull\<rparr>)
       = rd_compiled_prompt sample_unscored
   \<and> rd_metrics (sample_unscored\<lparr>rd_success := None, rd_formatted_output := Some JNull\<rparr>)
       = rd_metrics sample_unscored
   \<and> rd_suggestions (sample_unscored\<lparr>rd_success := None, rd_formatted_output := Some JNull\<rparr>)
       = rd_suggestions sample_unscored
   \<and> sample_unscored\<lparr>rd_success := None, rd_formatted_output := Some JNull\<rparr> \<noteq> sample_unscored
   \<and> ps_currentPrompt (snd (compile sample_request [Tick] (Resolved (Some sample_unscored))
        sample_store)) = Some (sample_prompt\<lparr>cp_version_id := ''v2''\<rparr>)
   \<and> snd (compile sample_request [Tick]
        (Resolved (Some (sample_unscored\<lparr>rd_success := None, rd_formatted_output := Some JNull\<rparr>)))
        sample_store) =
     snd (compile sample_request [Tick] (Resolved (Some sample_unscored)) sample_store)"
proof -
  let ?other = "sample_unscored\<lparr>rd_success := None, rd_formatted_output := Some JNull\<rparr>"
  have built: "handleCompile ''analyse a report'' LOW True = Some sample_request"
    by (simp add: handleCompile_def sample_request_def)
  have cp: "rd_compiled_prompt sample_unscored = Some (sample_prompt\<lparr>cp_version_id := ''v2''\<rparr>)"
    by (simp add: sample_unscored_def)
  have agree: "rd_compiled_prompt ?other = rd_compiled_prompt sample_unscored"
    "rd_metrics ?other = rd_metrics sample_unscored"
    "rd_suggestions ?other = rd_suggestions sample_unscored"
    by simp_all
  have differ: "?other \<noteq> sample_unscored"
    by (simp add: sample_unscored_def)
  note fact = compile_contract [where userInput = "''analyse a report''" and level = LOW
      and autoEvaluate = True and request = sample_request and events = "[Tick]"
      and r = sample_unscored and r' = ?other and s = sample_store
      and cp = "sample_prompt\<lparr>cp_version_id := ''v2''\<rparr>"]
  from fact cp have kept: "ps_currentPrompt (snd (compile sample_request [Tick]
        (Resolved (Some sample_unscored)) sample_store)) =
      Some (sample_prompt\<lparr>cp_version_id := ''v2''\<rparr>)"
    by blast
  from fact agree have same: "snd (compile sample_request [Tick] (Resolved (Some ?other))
        sample_store) =
      snd (compile sample_request [Tick] (Resolved (Some sample_unscored)) sample_store)"
    by blast
  from built cp agree differ kept same show ?thesis
    by blast
qed

text \<open>
  The claim as first stated gives a response exactly three members, no more and no
  fewer. The store accepts and returns a response of the declared type, which has
  \<open>success\<close> and \<open>formatted_output\<close> besides, and one that has no \<open>suggestions\<close>.
\<close>

theorem compile_contract_counterexample:
  "fst (compile sample_request [] (Resolved (Some (response_data sample_response)))
      sample_store) = Some (response_data sample_response)
   \<and> rd_success (response_data sample_response) = Some True
   \<and> rd_formatted_output (response_data sample_response) = Some JNull
   \<and> fst (compile sample_request [] (Resolved (Some sample_unscored)) sample_store) =
       Some sample_unscored
   \<and> rd_suggestions sample_unscored = None"
proof -
  have "rd_compiled_prompt (response_data sample_response) = Some sample_prompt"
    by (simp add: response_data_def sample_response_def)
  moreover have "rd_compiled_prompt sample_unscored =
      Some (sample_prompt\<lparr>cp_version_id := ''v2''\<rparr>)"
    by (simp add: sample_unscored_def)
  ultimately show ?thesis
    by (simp add: compile_succeeded response_data_def sample_response_def
        sample_unscored_def)
qed

end
